theory Spec2Isabelle
  imports Main "HOL-Library.Sublist"
begin

section \<open>Text as the Go programs see it\<close>

text \<open>
  Both programs handle Go strings holding UTF-8 text. The regular expressions and
  \<^verbatim>\<open>strings.TrimSpace\<close> decode the bytes into code points (Go's \<^verbatim>\<open>rune\<close>, a
  32-bit integer), so a string is modelled as the list of its code points. The only
  place where the byte length matters is the token limit of \<^verbatim>\<open>bufio.Scanner\<close>,
  for which \<open>utf8_len\<close> gives the encoded size of a code point. Input that is not
  valid UTF-8 is outside the model.
\<close>

type_synonym rune = int

definition nl :: rune where
  "nl = 0x0A"

definition cr :: rune where
  "cr = 0x0D"

subsection \<open>Library character tables\<close>

text \<open>\<^verbatim>\<open>unicode.IsSpace\<close>: the Latin-1 cases of the switch, then the White_Space table.\<close>

definition unicode_IsSpace :: "rune \<Rightarrow> bool" where
  "unicode_IsSpace r \<longleftrightarrow>
     (if r \<le> 0xFF then r \<in> {0x09, 0x0A, 0x0B, 0x0C, 0x0D, 0x20, 0x85, 0xA0}
      else r = 0x1680 \<or> (0x2000 \<le> r \<and> r \<le> 0x200A) \<or> r = 0x2028 \<or> r = 0x2029
           \<or> r = 0x202F \<or> r = 0x205F \<or> r = 0x3000)"

text \<open>The Perl classes of Go's regexp syntax: \<^verbatim>\<open>\s\<close> is \<^verbatim>\<open>[\t\n\f\r ]\<close>, \<^verbatim>\<open>\d\<close> is \<^verbatim>\<open>[0-9]\<close>.\<close>

definition perl_space :: "rune \<Rightarrow> bool" where
  "perl_space r \<longleftrightarrow> r \<in> {0x09, 0x0A, 0x0C, 0x0D, 0x20}"

definition perl_digit :: "rune \<Rightarrow> bool" where
  "perl_digit r \<longleftrightarrow> 0x30 \<le> r \<and> r \<le> 0x39"

text \<open>
  \<^verbatim>\<open>\p{Han}\<close>: the Han script table of Go's \<^verbatim>\<open>unicode\<close> package (Unicode 15). The table
  belongs to the Go library; the general theorems below do not depend on its entries.
\<close>

definition unicode_Han :: "rune \<Rightarrow> bool" where
  "unicode_Han r \<longleftrightarrow>
     (0x2E80 \<le> r \<and> r \<le> 0x2E99) \<or> (0x2E9B \<le> r \<and> r \<le> 0x2EF3) \<or>
     (0x2F00 \<le> r \<and> r \<le> 0x2FD5) \<or> r = 0x3005 \<or> r = 0x3007 \<or>
     (0x3021 \<le> r \<and> r \<le> 0x3029) \<or> (0x3038 \<le> r \<and> r \<le> 0x303B) \<or>
     (0x3400 \<le> r \<and> r \<le> 0x4DBF) \<or> (0x4E00 \<le> r \<and> r \<le> 0x9FFF) \<or>
     (0xF900 \<le> r \<and> r \<le> 0xFA6D) \<or> (0xFA70 \<le> r \<and> r \<le> 0xFAD9) \<or>
     (0x16FE2 \<le> r \<and> r \<le> 0x16FE3) \<or> (0x16FF0 \<le> r \<and> r \<le> 0x16FF1) \<or>
     (0x20000 \<le> r \<and> r \<le> 0x2A6DF) \<or> (0x2A700 \<le> r \<and> r \<le> 0x2B739) \<or>
     (0x2B740 \<le> r \<and> r \<le> 0x2B81D) \<or> (0x2B820 \<le> r \<and> r \<le> 0x2CEA1) \<or>
     (0x2CEB0 \<le> r \<and> r \<le> 0x2EBE0) \<or> (0x2F800 \<le> r \<and> r \<le> 0x2FA1D) \<or>
     (0x30000 \<le> r \<and> r \<le> 0x3134A) \<or> (0x31350 \<le> r \<and> r \<le> 0x323AF)"

subsection \<open>The character classes of the source's patterns\<close>

text \<open>
  main.go line 63, \<^verbatim>\<open>chineseSentenceRegex\<close>: the bracket expression of the pattern, read
  left to right: \<^verbatim>\<open>\p{Han}\<close>, \<^verbatim>\<open>\d\<close>, the range U+FF10-U+FF19, sixteen fullwidth
  marks, \<^verbatim>\<open>\-\<close>, \<^verbatim>\<open>:\<close>, \<^verbatim>\<open>.\<close>, \<^verbatim>\<open>\s\<close>, U+FE31, U+3001 and the backslash.
\<close>

definition chineseSentenceRegex :: "rune \<Rightarrow> bool" where
  "chineseSentenceRegex r \<longleftrightarrow>
     unicode_Han r \<or> perl_digit r \<or> (0xFF10 \<le> r \<and> r \<le> 0xFF19) \<or>
     r \<in> {0x3002, 0xFF0C, 0xFF01, 0xFF1F, 0xFF1A, 0xFF1B, 0xFF08, 0xFF09,
          0x3010, 0x3011, 0x300A, 0x300B, 0x201C, 0x201D, 0x2018, 0x2019} \<or>
     r = 0x2D \<or> r = 0x3A \<or> r = 0x2E \<or> perl_space r \<or> r = 0xFE31 \<or> r = 0x3001 \<or> r = 0x5C"

text \<open>
  main.go line 64, \<^verbatim>\<open>englishSentenceRegex\<close>: \<^verbatim>\<open>a-z\<close>, \<^verbatim>\<open>A-Z\<close>, \<^verbatim>\<open>0-9\<close>, the marks
  \<^verbatim>\<open>.,!?;:'"()\<close>, \<^verbatim>\<open>\-\<close>, \<^verbatim>\<open>:\<close>, \<^verbatim>\<open>\s\<close>, the bar and the backslash.
\<close>

definition englishSentenceRegex :: "rune \<Rightarrow> bool" where
  "englishSentenceRegex r \<longleftrightarrow>
     (0x61 \<le> r \<and> r \<le> 0x7A) \<or> (0x41 \<le> r \<and> r \<le> 0x5A) \<or> (0x30 \<le> r \<and> r \<le> 0x39) \<or>
     r \<in> {0x2E, 0x2C, 0x21, 0x3F, 0x3B, 0x3A, 0x27, 0x22, 0x28, 0x29} \<or>
     r = 0x2D \<or> r = 0x3A \<or> perl_space r \<or> r = 0x7C \<or> r = 0x5C"

text \<open>
  main.go line 140, the class of \<^verbatim>\<open>pattern\<close> in \<^verbatim>\<open>splitAfterPunctuation\<close>, in the
  order of the source (U+FF0C, U+2014 and U+2026 are written twice there).
\<close>

definition splitPattern :: "rune \<Rightarrow> bool" where
  "splitPattern r \<longleftrightarrow>
     r \<in> {0xFE31, 0x7C, 0x4E28, 0xFF0C, 0x2C, 0xFF0C, 0x3002, 0x2E, 0x3F, 0xFF1F, 0x2F,
          0x5C, 0x3001, 0xFF1A, 0x3B, 0xFF1B, 0x3A, 0x2014, 0x2014, 0x2026, 0x2026,
          0x201C, 0x22, 0x201D, 0xFF01, 0x21}"

text \<open>main.go line 168, the class of \<^verbatim>\<open>punctuationOnlyRegex\<close>; the final \<^verbatim>\<open>-\<close> is literal.\<close>

definition punctuationOnlyRegex :: "rune \<Rightarrow> bool" where
  "punctuationOnlyRegex r \<longleftrightarrow>
     r \<in> {0x2E, 0x2C, 0x21, 0x3F, 0x3B, 0x3A, 0x27, 0x3010, 0x3011, 0x3002, 0x3001,
          0xFF1A, 0xFF1B, 0x2026, 0x2026, 0x2014, 0x2014, 0xFF01, 0x4E28, 0xFE31, 0x2D}"


subsection \<open>The three shapes of regular expression the programs use\<close>

text \<open>
  \<^verbatim>\<open>regexp.MustCompile(`[...]+`).FindAllString(line, -1)\<close>: the successive leftmost
  matches. A match starts at the first code point of the class and, \<^verbatim>\<open>+\<close> being
  greedy, takes every following code point of the class; the search goes on behind it.
\<close>

function FindAllString :: "(rune \<Rightarrow> bool) \<Rightarrow> rune list \<Rightarrow> rune list list" where
  "FindAllString cls s =
     (case dropWhile (\<lambda>r. \<not> cls r) s of
        [] \<Rightarrow> []
      | r # rs \<Rightarrow> (r # takeWhile cls rs) # FindAllString cls (dropWhile cls rs))"
  by pat_completeness auto
termination
proof (relation "measure (\<lambda>(cls, s). length s)")
  show "wf (measure (\<lambda>(cls, s). length s))" by simp
next
  fix cls :: "rune \<Rightarrow> bool" and s r rs
  assume d: "dropWhile (\<lambda>r. \<not> cls r) s = r # rs"
  have "length (dropWhile cls rs) \<le> length rs"
    by (rule length_dropWhile_le)
  moreover have "length (r # rs) \<le> length s"
    using length_dropWhile_le [of "\<lambda>r. \<not> cls r" s] d by simp
  ultimately show "((cls, dropWhile cls rs), (cls, s)) \<in> measure (\<lambda>(cls, s). length s)"
    by simp
qed

declare FindAllString.simps [simp del]

text \<open>
  \<^verbatim>\<open>regexp.MustCompile(`([...])`).ReplaceAllString(content, "$1\n")\<close>: the text before
  the leftmost match is copied, the template is expanded (group 1 is the matched code
  point, then a line feed), and the replacement goes on behind the match.
\<close>

function ReplaceAllString :: "(rune \<Rightarrow> bool) \<Rightarrow> rune list \<Rightarrow> rune list" where
  "ReplaceAllString cls s =
     (case dropWhile (\<lambda>r. \<not> cls r) s of
        [] \<Rightarrow> s
      | r # rs \<Rightarrow> takeWhile (\<lambda>r. \<not> cls r) s @ [r, nl] @ ReplaceAllString cls rs)"
  by pat_completeness auto
termination
proof (relation "measure (\<lambda>(cls, s). length s)")
  show "wf (measure (\<lambda>(cls, s). length s))" by simp
next
  fix cls :: "rune \<Rightarrow> bool" and s r rs
  assume d: "dropWhile (\<lambda>r. \<not> cls r) s = r # rs"
  show "((cls, rs), (cls, s)) \<in> measure (\<lambda>(cls, s). length s)"
    using length_dropWhile_le [of "\<lambda>r. \<not> cls r" s] d by simp
qed

declare ReplaceAllString.simps [simp del]

text \<open>
  \<^verbatim>\<open>regexp.MustCompile(`^[...]+$`).MatchString(s)\<close>: without the multi-line flag the
  anchors are the two ends of the text, so the whole of \<open>s\<close> is one or more code points
  of the class.
\<close>

definition MatchString :: "(rune \<Rightarrow> bool) \<Rightarrow> rune list \<Rightarrow> bool" where
  "MatchString cls s \<longleftrightarrow> s \<noteq> [] \<and> list_all cls s"

subsection \<open>Functions of package strings\<close>

text \<open>\<^verbatim>\<open>strings.Split(s, "\n")\<close>: cut at the first separator and go on; the rest is the last piece.\<close>

function strings_Split :: "rune list \<Rightarrow> rune list list" where
  "strings_Split s =
     (case dropWhile (\<lambda>r. r \<noteq> nl) s of
        [] \<Rightarrow> [s]
      | r # rs \<Rightarrow> takeWhile (\<lambda>r. r \<noteq> nl) s # strings_Split rs)"
  by pat_completeness auto
termination
proof (relation "measure length")
  show "wf (measure length)" by simp
next
  fix s :: "rune list" and r rs
  assume d: "dropWhile (\<lambda>r. r \<noteq> nl) s = r # rs"
  show "(rs, s) \<in> measure length"
    using length_dropWhile_le [of "\<lambda>r. r \<noteq> nl" s] d by simp
qed

declare strings_Split.simps [simp del]

text \<open>\<^verbatim>\<open>strings.Join(elems, "\n")\<close>.\<close>

fun strings_Join :: "rune list list \<Rightarrow> rune list" where
  "strings_Join [] = []"
| "strings_Join [x] = x"
| "strings_Join (x # y # ys) = x @ nl # strings_Join (y # ys)"

text \<open>\<^verbatim>\<open>strings.TrimSpace\<close>: all leading and trailing white space, as \<^verbatim>\<open>unicode.IsSpace\<close> defines it.\<close>

definition strings_TrimSpace :: "rune list \<Rightarrow> rune list" where
  "strings_TrimSpace s = rev (dropWhile unicode_IsSpace (rev (dropWhile unicode_IsSpace s)))"

section \<open>main.go: the pure functions\<close>

definition splitAfterPunctuation :: "rune list \<Rightarrow> rune list" where
  "splitAfterPunctuation content = ReplaceAllString splitPattern content"

definition joinLines :: "rune list list \<Rightarrow> rune list" where
  "joinLines lines = strings_Join lines"

text \<open>The loop of \<^verbatim>\<open>removeEmptyLines\<close>, with \<^verbatim>\<open>nonEmptyLines\<close> as the accumulator.\<close>

fun removeEmptyLines_loop :: "rune list list \<Rightarrow> rune list list \<Rightarrow> rune list list" where
  "removeEmptyLines_loop nonEmptyLines [] = nonEmptyLines"
| "removeEmptyLines_loop nonEmptyLines (line # lines) =
     (let trimmed = strings_TrimSpace line
      in if trimmed \<noteq> [] then removeEmptyLines_loop (nonEmptyLines @ [trimmed]) lines
         else removeEmptyLines_loop nonEmptyLines lines)"

definition removeEmptyLines :: "rune list \<Rightarrow> rune list" where
  "removeEmptyLines content =
     (let lines = strings_Split content
      in strings_Join (removeEmptyLines_loop [] lines))"

text \<open>The loop of \<^verbatim>\<open>removePunctuationOnlyLines\<close>.\<close>

fun removePunctuationOnlyLines_loop :: "rune list list \<Rightarrow> rune list list \<Rightarrow> rune list list" where
  "removePunctuationOnlyLines_loop nonPunctuationLines [] = nonPunctuationLines"
| "removePunctuationOnlyLines_loop nonPunctuationLines (line # lines) =
     (let trimmed = strings_TrimSpace line
      in if trimmed \<noteq> [] \<and> \<not> MatchString punctuationOnlyRegex trimmed
         then removePunctuationOnlyLines_loop (nonPunctuationLines @ [trimmed]) lines
         else removePunctuationOnlyLines_loop nonPunctuationLines lines)"

definition removePunctuationOnlyLines :: "rune list \<Rightarrow> rune list" where
  "removePunctuationOnlyLines content =
     (let lines = strings_Split content
      in strings_Join (removePunctuationOnlyLines_loop [] lines))"


text \<open>
  The loop over the input lines in \<^verbatim>\<open>main\<close> (lines 73-89) updates three slices. The two
  inner iterations over the matches append each match to its own slice and to the combined one.
\<close>

record sentences =
  chineseSentences :: "rune list list"
  englishSentences :: "rune list list"
  combinedSentences :: "rune list list"

fun chineseMatches_loop :: "sentences \<Rightarrow> rune list list \<Rightarrow> sentences" where
  "chineseMatches_loop st [] = st"
| "chineseMatches_loop st (sentence # matches) =
     chineseMatches_loop
       (st\<lparr>chineseSentences := chineseSentences st @ [sentence],
           combinedSentences := combinedSentences st @ [sentence]\<rparr>) matches"

fun englishMatches_loop :: "sentences \<Rightarrow> rune list list \<Rightarrow> sentences" where
  "englishMatches_loop st [] = st"
| "englishMatches_loop st (sentence # matches) =
     englishMatches_loop
       (st\<lparr>englishSentences := englishSentences st @ [sentence],
           combinedSentences := combinedSentences st @ [sentence]\<rparr>) matches"

fun scanner_loop :: "sentences \<Rightarrow> rune list list \<Rightarrow> sentences" where
  "scanner_loop st [] = st"
| "scanner_loop st (line # lines) =
     (let chineseMatches = FindAllString chineseSentenceRegex line;
          st1 = chineseMatches_loop st chineseMatches;
          englishMatches = FindAllString englishSentenceRegex line;
          st2 = englishMatches_loop st1 englishMatches
      in scanner_loop st2 lines)"

section \<open>The environment: errors, the scanner, files\<close>

text \<open>
  Go error values. \<^verbatim>\<open>dialog.Cancelled\<close> and \<^verbatim>\<open>bufio.ErrTooLong\<close> are the two sentinel
  values the programs can meet; any other error is known by its text. \<open>error_text\<close> is
  what \<^verbatim>\<open>%v\<close> and \<^verbatim>\<open>Println\<close> print for the error.
\<close>

datatype error = Cancelled | ErrTooLong | OSError string

fun error_text :: "error \<Rightarrow> string" where
  "error_text Cancelled = ''Cancelled''"
| "error_text ErrTooLong = ''bufio.Scanner: token too long''"
| "error_text (OSError m) = m"

text \<open>The size of a code point in UTF-8 and of a string in bytes.\<close>

definition utf8_len :: "rune \<Rightarrow> int" where
  "utf8_len r = (if r < 0x80 then 1 else if r < 0x800 then 2 else if r < 0x10000 then 3 else 4)"

definition byte_len :: "rune list \<Rightarrow> int" where
  "byte_len s = sum_list (map utf8_len s)"

definition MaxScanTokenSize :: int where
  "MaxScanTokenSize = 64 * 1024"

text \<open>\<^verbatim>\<open>dropCR\<close> of package bufio: a final carriage return is dropped.\<close>

definition dropCR :: "rune list \<Rightarrow> rune list" where
  "dropCR data = (if data \<noteq> [] \<and> last data = cr then butlast data else data)"

text \<open>
  \<^verbatim>\<open>bufio.Scanner\<close> with the default split function \<^verbatim>\<open>ScanLines\<close>, run until
  \<^verbatim>\<open>Scan\<close> returns false: the tokens it delivered and the value of \<^verbatim>\<open>Err()\<close>.
  A token is the text up to the next line feed, or up to the end of the data when that
  text is not empty, without a final carriage return. The buffer grows to
  \<^verbatim>\<open>MaxScanTokenSize\<close> bytes at most: when that many bytes hold no line feed the
  scanner stops with \<^verbatim>\<open>ErrTooLong\<close>.
\<close>

function bufio_Scan :: "rune list \<Rightarrow> rune list list \<times> error option" where
  "bufio_Scan data =
     (if data = [] then ([], None)
      else let line = takeWhile (\<lambda>r. r \<noteq> nl) data
           in if MaxScanTokenSize \<le> byte_len line then ([], Some ErrTooLong)
              else (case bufio_Scan (drop (Suc (length line)) data) of
                      (tokens, err) \<Rightarrow> (dropCR line # tokens, err)))"
  by pat_completeness auto
termination
  by (relation "measure length") auto

declare bufio_Scan.simps [simp del]

text \<open>
  What a run of a program leaves behind: the lines printed on standard output, the files
  written completely (path and content, in the order of writing) and the exit status of
  the process. A file whose creation or writing failed is not listed.
\<close>

record outcome =
  stdout :: "string list"
  written :: "(string \<times> rune list) list"
  exit_code :: int

text \<open>
  Neither program calls \<^verbatim>\<open>os.Exit\<close>, \<^verbatim>\<open>log.Fatal\<close> or \<^verbatim>\<open>panic\<close>, and every pattern
  given to \<^verbatim>\<open>MustCompile\<close> is well formed: each run ends by a \<^verbatim>\<open>return\<close> from
  \<^verbatim>\<open>main\<close> (or by reaching its end), after which the Go runtime exits with status 0.
\<close>

definition return_from_main :: "string list \<Rightarrow> (string \<times> rune list) list \<Rightarrow> outcome" where
  "return_from_main out files = \<lparr>stdout = out, written = files, exit_code = 0\<rparr>"

section \<open>main.go: the program\<close>

text \<open>
  The environment of main.go: the result of the file dialog (path and error, as Go
  returns them), of opening a path (an error, or the data the reads deliver and the
  error that ends them, if any), of creating an output file, and of the two calls on its
  buffered writer.
\<close>

record world =
  dialog_Load :: "string \<times> error option"
  os_Open :: "string \<Rightarrow> error + rune list \<times> error option"
  os_Create :: "string \<Rightarrow> error option"
  writer_WriteString :: "string \<Rightarrow> error option"
  writer_Flush :: "string \<Rightarrow> error option"

text \<open>\<^verbatim>\<open>writeCleanedContent\<close>: the error, or the file now on disk.\<close>

definition writeCleanedContent :: "world \<Rightarrow> rune list \<Rightarrow> string \<Rightarrow> error + string \<times> rune list" where
  "writeCleanedContent w content filePath =
     (let cleanContent = removeEmptyLines content
      in case os_Create w filePath of
           Some err \<Rightarrow> Inl err
         | None \<Rightarrow>
            (case writer_WriteString w filePath of
               Some err \<Rightarrow> Inl err
             | None \<Rightarrow>
                (case writer_Flush w filePath of
                   Some err \<Rightarrow> Inl err
                 | None \<Rightarrow> Inr (filePath, cleanContent))))"

definition main :: "world \<Rightarrow> outcome" where
  "main w =
     (let out0 = [''Select the input file:''];
          (inputFile, err) = dialog_Load w
      in case err of
           Some e \<Rightarrow> return_from_main (out0 @ [''Error selecting input file: '' @ error_text e]) []
         | None \<Rightarrow>
      if inputFile = [] then return_from_main (out0 @ [''No input file selected.'']) []
      else
      let out1 = out0 @ [''Selected input file: '' @ inputFile];
          pureChineseSentencesFile = ''pure_chinese_sentences.txt'';
          pureEnglishSentencesFile = ''pure_english_sentences.txt'';
          combinedSentencesFile = ''combined_sentences.txt''
      in case os_Open w inputFile of
           Inl e \<Rightarrow> return_from_main (out1 @ [''Error opening input file: '' @ error_text e]) []
         | Inr (data, read_err) \<Rightarrow>
      (case bufio_Scan data of (lines, scan_err) \<Rightarrow>
      let st = scanner_loop
                 \<lparr>chineseSentences = [], englishSentences = [], combinedSentences = []\<rparr> lines
      in case (case scan_err of Some e \<Rightarrow> Some e | None \<Rightarrow> read_err) of
           Some e \<Rightarrow> return_from_main (out1 @ [''Error reading input file: '' @ error_text e]) []
         | None \<Rightarrow>
      (case writeCleanedContent w
              (removePunctuationOnlyLines (splitAfterPunctuation (joinLines (chineseSentences st))))
              pureChineseSentencesFile of
         Inl e \<Rightarrow> return_from_main
                    (out1 @ [''Error writing to Chinese sentences file: '' @ error_text e]) []
       | Inr f1 \<Rightarrow>
      (case writeCleanedContent w
              (removePunctuationOnlyLines (splitAfterPunctuation (joinLines (englishSentences st))))
              pureEnglishSentencesFile of
         Inl e \<Rightarrow> return_from_main
                    (out1 @ [''Error writing to English sentences file: '' @ error_text e]) [f1]
       | Inr f2 \<Rightarrow>
      (case writeCleanedContent w
              (removePunctuationOnlyLines (splitAfterPunctuation (joinLines (combinedSentences st))))
              combinedSentencesFile of
         Inl e \<Rightarrow> return_from_main
                    (out1 @ [''Error writing to Combined sentences file: '' @ error_text e]) [f1, f2]
       | Inr f3 \<Rightarrow> return_from_main
                     (out1 @ [''All output files written and cleaned successfully!''])
                     [f1, f2, f3])))))"

section \<open>The sibling program\<close>





section \<open>Notions of the specification\<close>

text \<open>
  The splitter as the specification words it: the same buffer with a line feed inserted
  immediately after every occurrence of a code point of a given set.
\<close>

fun insert_newline_after :: "(rune \<Rightarrow> bool) \<Rightarrow> rune list \<Rightarrow> rune list" where
  "insert_newline_after P [] = []"
| "insert_newline_after P (r # rs) =
     (if P r then r # nl # insert_newline_after P rs else r # insert_newline_after P rs)"

text \<open>
  The splitter-punctuation set as the specification lists it (section 4.1), the em-dash
  and the ellipsis tokens by their constituent code point; its quotation mark is U+0022.
\<close>

definition spec_splitter_punctuation :: "rune \<Rightarrow> bool" where
  "spec_splitter_punctuation r \<longleftrightarrow>
     r \<in> {0xFE31, 0x7C, 0x4E28, 0xFF0C, 0x2C, 0x3002, 0x2E, 0x3F, 0xFF1F, 0x2F, 0x5C,
          0x3001, 0xFF1A, 0x3B, 0xFF1B, 0x3A, 0x2014, 0x2026, 0x22, 0xFF01, 0x21}"

text \<open>The number of lines of a buffer: the pieces between its line feeds.\<close>

definition line_count :: "rune list \<Rightarrow> nat" where
  "line_count content = length (strings_Split content)"

text \<open>
  The lines present in a file: none in a file of zero bytes, otherwise the pieces between
  its line feeds.
\<close>

definition file_lines :: "rune list \<Rightarrow> rune list list" where
  "file_lines content = (if content = [] then [] else strings_Split content)"

text \<open>
  A line as the cleaner leaves it: not empty, without a line feed, and with no white
  space (in the sense of \<^verbatim>\<open>strings.TrimSpace\<close>) at either end.
\<close>

definition trimmed_line :: "rune list \<Rightarrow> bool" where
  "trimmed_line l \<longleftrightarrow>
     l \<noteq> [] \<and> nl \<notin> set l \<and> \<not> unicode_IsSpace (hd l) \<and> \<not> unicode_IsSpace (last l)"

text \<open>The lines of a buffer that survive \<^verbatim>\<open>removePunctuationOnlyLines\<close>, trimmed.\<close>

definition kept_lines :: "rune list \<Rightarrow> rune list list" where
  "kept_lines content =
     filter (\<lambda>t. t \<noteq> [] \<and> \<not> MatchString punctuationOnlyRegex t)
       (map strings_TrimSpace (strings_Split content))"

text \<open>
  The segments of a line for a class, as section 4.2 of the specification words them:
  the line is a gap, a segment, a gap, a segment and so on, where the gaps hold no code
  point of the class and a segment is a non-empty run of the class that ends at the end
  of the line or before a code point outside the class.
\<close>

inductive maximal_segments :: "(rune \<Rightarrow> bool) \<Rightarrow> rune list \<Rightarrow> rune list list \<Rightarrow> bool"
  for cls :: "rune \<Rightarrow> bool" where
  no_segment: "list_all (\<lambda>r. \<not> cls r) gap \<Longrightarrow> maximal_segments cls gap []"
| segment: "list_all (\<lambda>r. \<not> cls r) gap \<Longrightarrow> seg \<noteq> [] \<Longrightarrow> list_all cls seg \<Longrightarrow>
            rest = [] \<or> \<not> cls (hd rest) \<Longrightarrow> maximal_segments cls rest segs \<Longrightarrow>
            maximal_segments cls (gap @ seg @ rest) (seg # segs)"

code_pred maximal_segments .


section \<open>Notions used in the statements about the two programs\<close>




text \<open>
  Names for three terms of \<^verbatim>\<open>main\<close>: the argument it passes to
  \<^verbatim>\<open>writeCleanedContent\<close> for a list of sentences, the three slices after the loop over
  the scanner's tokens, and the value of \<^verbatim>\<open>scanner.Err()\<close>.
\<close>

definition category_content :: "rune list list \<Rightarrow> rune list" where
  "category_content sentences =
     removePunctuationOnlyLines (splitAfterPunctuation (joinLines sentences))"

definition scanned :: "rune list \<Rightarrow> sentences" where
  "scanned data =
     scanner_loop \<lparr>chineseSentences = [], englishSentences = [], combinedSentences = []\<rparr>
       (fst (bufio_Scan data))"

definition scanner_Err :: "rune list \<Rightarrow> error option \<Rightarrow> error option" where
  "scanner_Err data read_err = (case snd (bufio_Scan data) of Some e \<Rightarrow> Some e | None \<Rightarrow> read_err)"

section \<open>Concrete inputs and environments\<close>

text \<open>An environment of main.go without failure: the dialog gives \<open>path\<close>, which holds \<open>data\<close>.\<close>

definition input_world :: "string \<Rightarrow> rune list \<Rightarrow> world" where
  "input_world path data =
     \<lparr>dialog_Load = (path, None),
      os_Open = (\<lambda>p. if p = path then Inr (data, None) else Inl (OSError ''no such file'')),
      os_Create = (\<lambda>p. None),
      writer_WriteString = (\<lambda>p. None),
      writer_Flush = (\<lambda>p. None)\<rparr>"



text \<open>The line \<^verbatim>\<open>Hello, \<close>U+4E16 U+754C U+FF01\<^verbatim>\<open>How are you?\<close> of scenario 4.\<close>

definition hello_line :: "rune list" where
  "hello_line = [0x48, 0x65, 0x6C, 0x6C, 0x6F, 0x2C, 0x20, 0x4E16, 0x754C, 0xFF01,
                 0x48, 0x6F, 0x77, 0x20, 0x61, 0x72, 0x65, 0x20, 0x79, 0x6F, 0x75, 0x3F]"

text \<open>The line \<^verbatim>\<open>A\<close>U+3002\<^verbatim>\<open>B\<close>U+3002 of scenario 2.\<close>

definition ab_line :: "rune list" where
  "ab_line = [0x41, 0x3002, 0x42, 0x3002]"


section \<open>Properties\<close>

subsection \<open>Unfolding the library functions\<close>

lemma ReplaceAllString_Nil: "ReplaceAllString cls [] = []"
  by (simp add: ReplaceAllString.simps)

lemma ReplaceAllString_Cons:
  "ReplaceAllString cls (r # rs) =
     (if cls r then r # nl # ReplaceAllString cls rs else r # ReplaceAllString cls rs)"
proof (cases "cls r")
  case True
  then show ?thesis by (subst ReplaceAllString.simps) simp
next
  case False
  have "ReplaceAllString cls (r # rs) = r # ReplaceAllString cls rs"
    using False
    by (simp add: ReplaceAllString.simps [of cls "r # rs"] ReplaceAllString.simps [of cls rs]
          del: dropWhile_eq_Nil_conv split: list.splits)
  with False show ?thesis by simp
qed

lemma ReplaceAllString_insert: "ReplaceAllString cls s = insert_newline_after cls s"
  by (induction s) (simp_all add: ReplaceAllString_Nil ReplaceAllString_Cons)

lemma strings_Split_Nil: "strings_Split [] = [[]]"
  by (simp add: strings_Split.simps)

lemma strings_Split_Cons:
  "strings_Split (r # rs) =
     (if r = nl then [] # strings_Split rs
      else (r # hd (strings_Split rs)) # tl (strings_Split rs))"
proof (cases "r = nl")
  case True
  then show ?thesis by (subst strings_Split.simps) simp
next
  case False
  have "strings_Split (r # rs) = (r # hd (strings_Split rs)) # tl (strings_Split rs)"
    using False
    by (simp add: strings_Split.simps [of "r # rs"] strings_Split.simps [of rs]
          del: dropWhile_eq_Nil_conv split: list.splits)
  with False show ?thesis by simp
qed

lemma strings_Split_not_Nil: "strings_Split s \<noteq> []"
  by (cases s) (simp_all add: strings_Split_Nil strings_Split_Cons)

lemma length_strings_Split: "length (strings_Split s) = Suc (length (filter (\<lambda>r. r = nl) s))"
proof (induction s)
  case Nil
  show ?case by (simp add: strings_Split_Nil)
next
  case (Cons r rs)
  have "length (tl (strings_Split rs)) = length (strings_Split rs) - 1"
    by simp
  with Cons show ?case
    by (simp add: strings_Split_Cons)
qed

lemma count_nl_insert:
  "length (filter (\<lambda>r. r = nl) s) \<le> length (filter (\<lambda>r. r = nl) (insert_newline_after P s))"
  by (induction s) auto

subsection \<open>The splitter\<close>

text \<open>
  Claim C3, as stated, fails on the code: the pattern of \<^verbatim>\<open>splitAfterPunctuation\<close> also
  holds the two curved quotation marks U+201C and U+201D, which the listed set lacks. At
  the one-character buffer U+201C the listed set asks for no change, and the code appends
  a line feed.
\<close>

theorem splitAfterPunctuation_spec_set_counterexample:
  "\<not> spec_splitter_punctuation 0x201C \<and>
   insert_newline_after spec_splitter_punctuation [0x201C] = [0x201C] \<and>
   splitAfterPunctuation [0x201C] = [0x201C, 0x0A]"
  by (simp add: spec_splitter_punctuation_def splitAfterPunctuation_def ReplaceAllString_Cons
      ReplaceAllString_Nil splitPattern_def nl_def)

text \<open>
  Claim C3, amended: for every buffer, \<^verbatim>\<open>splitAfterPunctuation\<close> returns the same buffer
  with a line feed inserted immediately after every occurrence of a code point of the
  listed set or of U+201C or U+201D, also where a line feed already follows, and changes
  nothing else.
\<close>

theorem splitAfterPunctuation_inserts:
  "splitAfterPunctuation content =
     insert_newline_after (\<lambda>r. spec_splitter_punctuation r \<or> r = 0x201C \<or> r = 0x201D) content"
proof -
  have "splitPattern = (\<lambda>r. spec_splitter_punctuation r \<or> r = 0x201C \<or> r = 0x201D)"
    by (rule ext) (auto simp: splitPattern_def spec_splitter_punctuation_def)
  then show ?thesis
    by (simp add: splitAfterPunctuation_def ReplaceAllString_insert)
qed

theorem splitAfterPunctuation_inserts_witness:
  "splitAfterPunctuation [0x4F60, 0x597D, 0xFF0C, 0x0A, 0x77, 0x21, 0x2014, 0x2014, 0x201D] =
     [0x4F60, 0x597D, 0xFF0C, 0x0A, 0x0A, 0x77, 0x21, 0x0A, 0x2014, 0x0A, 0x2014, 0x0A, 0x201D, 0x0A]"
  using splitAfterPunctuation_inserts [of "[0x4F60, 0x597D, 0xFF0C, 0x0A, 0x77, 0x21, 0x2014, 0x2014, 0x201D]"]
  by (simp add: spec_splitter_punctuation_def nl_def)

text \<open>
  Claim C6: the splitter is monotone in the line count: its output has at least as many
  lines as its input.
\<close>

theorem splitAfterPunctuation_line_count:
  "line_count content \<le> line_count (splitAfterPunctuation content)"
  by (simp add: line_count_def length_strings_Split splitAfterPunctuation_def
      ReplaceAllString_insert count_nl_insert)

theorem splitAfterPunctuation_line_count_witness:
  "line_count [0x41, 0x2E, 0x0A, 0x42] = 2 \<and> line_count (splitAfterPunctuation [0x41, 0x2E, 0x0A, 0x42]) = 3"
  using splitAfterPunctuation_line_count [of "[0x41, 0x2E, 0x0A, 0x42]"]
  by (simp add: line_count_def length_strings_Split splitAfterPunctuation_def
      ReplaceAllString_insert splitPattern_def nl_def)

subsection \<open>The cleaner\<close>

lemma removeEmptyLines_loop_filter:
  "removeEmptyLines_loop acc ls = acc @ filter (\<lambda>t. t \<noteq> []) (map strings_TrimSpace ls)"
  by (induction ls arbitrary: acc) (simp_all add: Let_def)

lemma removePunctuationOnlyLines_loop_filter:
  "removePunctuationOnlyLines_loop acc ls =
     acc @ filter (\<lambda>t. t \<noteq> [] \<and> \<not> MatchString punctuationOnlyRegex t) (map strings_TrimSpace ls)"
  by (induction ls arbitrary: acc) (simp_all add: Let_def)


lemma TrimSpace_Nil: "strings_TrimSpace [] = []"
  by (simp add: strings_TrimSpace_def)

lemma set_TrimSpace: "set (strings_TrimSpace s) \<subseteq> set s"
proof -
  have "set (dropWhile unicode_IsSpace (rev (dropWhile unicode_IsSpace s)))
          \<subseteq> set (rev (dropWhile unicode_IsSpace s))"
    by (rule set_dropWhileD [THEN subsetI])
  also have "\<dots> \<subseteq> set s"
    using set_dropWhileD [of _ unicode_IsSpace s] by auto
  finally show ?thesis by (simp add: strings_TrimSpace_def)
qed

lemma last_TrimSpace:
  assumes "strings_TrimSpace s \<noteq> []"
  shows "\<not> unicode_IsSpace (last (strings_TrimSpace s))"
proof -
  let ?v = "dropWhile unicode_IsSpace (rev (dropWhile unicode_IsSpace s))"
  from assms have v: "?v \<noteq> []" by (simp add: strings_TrimSpace_def)
  then have "\<not> unicode_IsSpace (hd ?v)" by (rule hd_dropWhile)
  moreover have "last (rev ?v) = hd ?v" using v by (simp add: last_rev)
  ultimately show ?thesis by (simp add: strings_TrimSpace_def)
qed

lemma hd_TrimSpace:
  assumes "strings_TrimSpace s \<noteq> []"
  shows "\<not> unicode_IsSpace (hd (strings_TrimSpace s))"
proof -
  let ?u = "dropWhile unicode_IsSpace s"
  let ?v = "dropWhile unicode_IsSpace (rev ?u)"
  from assms have v: "?v \<noteq> []" by (simp add: strings_TrimSpace_def)
  then have u: "?u \<noteq> []" by (metis dropWhile.simps(1) rev.simps(1))
  have "rev ?u = takeWhile unicode_IsSpace (rev ?u) @ ?v" by simp
  then have "last (rev ?u) = last ?v" using v by (metis last_appendR)
  then have "last ?v = hd ?u" using u by (simp add: last_rev)
  moreover have "\<not> unicode_IsSpace (hd ?u)" using u by (rule hd_dropWhile)
  moreover have "hd (rev ?v) = last ?v" using v by (simp add: hd_rev)
  ultimately show ?thesis by (simp add: strings_TrimSpace_def)
qed

lemma TrimSpace_trimmed:
  assumes "t \<noteq> []" "\<not> unicode_IsSpace (hd t)" "\<not> unicode_IsSpace (last t)"
  shows "strings_TrimSpace t = t"
proof -
  from assms have a: "dropWhile unicode_IsSpace t = t"
    by (cases t) simp_all
  from assms have "dropWhile unicode_IsSpace (rev t) = rev t"
    by (cases "rev t") (simp_all add: last_rev [symmetric] hd_rev)
  with a show ?thesis by (simp add: strings_TrimSpace_def)
qed

lemma strings_Split_no_nl: "nl \<notin> set a \<Longrightarrow> strings_Split a = [a]"
  by (induction a) (simp_all add: strings_Split_Nil strings_Split_Cons)

lemma strings_Split_append_nl:
  "nl \<notin> set a \<Longrightarrow> strings_Split (a @ nl # b) = a # strings_Split b"
  by (induction a) (simp_all add: strings_Split_Cons)

lemma strings_Split_pieces: "l \<in> set (strings_Split s) \<Longrightarrow> nl \<notin> set l"
proof (induction s arbitrary: l)
  case Nil
  then show ?case by (simp add: strings_Split_Nil)
next
  case (Cons r rs)
  have ne: "strings_Split rs \<noteq> []" by (rule strings_Split_not_Nil)
  show ?case
  proof (cases "r = nl")
    case True
    with Cons show ?thesis by (auto simp: strings_Split_Cons)
  next
    case False
    with Cons.prems have "l = r # hd (strings_Split rs) \<or> l \<in> set (tl (strings_Split rs))"
      by (simp add: strings_Split_Cons)
    then show ?thesis
    proof
      assume "l = r # hd (strings_Split rs)"
      moreover have "nl \<notin> set (hd (strings_Split rs))"
        using Cons.IH [of "hd (strings_Split rs)"] ne by simp
      ultimately show ?thesis using False by auto
    next
      assume "l \<in> set (tl (strings_Split rs))"
      then have "l \<in> set (strings_Split rs)" using ne by (meson list.set_sel(2))
      then show ?thesis by (rule Cons.IH)
    qed
  qed
qed

lemma strings_Split_Join:
  "ls \<noteq> [] \<Longrightarrow> \<forall>l\<in>set ls. nl \<notin> set l \<Longrightarrow> strings_Split (strings_Join ls) = ls"
proof (induction ls rule: strings_Join.induct)
  case 1
  then show ?case by simp
next
  case (2 x)
  then show ?case by (simp add: strings_Split_no_nl)
next
  case (3 x y ys)
  then show ?case by (simp add: strings_Split_append_nl)
qed

lemma strings_Join_eq_Nil: "\<forall>l\<in>set ls. l \<noteq> [] \<Longrightarrow> strings_Join ls = [] \<longleftrightarrow> ls = []"
  by (induction ls rule: strings_Join.induct) simp_all



lemma trimmed_line_TrimSpace:
  "l \<in> set (strings_Split s) \<Longrightarrow> strings_TrimSpace l \<noteq> [] \<Longrightarrow> trimmed_line (strings_TrimSpace l)"
  using strings_Split_pieces [of l s] set_TrimSpace [of l]
  by (auto simp: trimmed_line_def hd_TrimSpace last_TrimSpace)

lemma TrimSpace_trimmed_line:
  "trimmed_line l \<Longrightarrow> strings_TrimSpace l = l"
  by (simp add: trimmed_line_def TrimSpace_trimmed)

lemma map_TrimSpace_trimmed: "\<forall>l\<in>set ls. trimmed_line l \<Longrightarrow> map strings_TrimSpace ls = ls"
  by (induction ls) (simp_all add: TrimSpace_trimmed_line)

lemma file_lines_Join: "\<forall>l\<in>set ls. trimmed_line l \<Longrightarrow> file_lines (strings_Join ls) = ls"
proof (cases "ls = []")
  case True
  then show ?thesis by (simp add: file_lines_def)
next
  case False
  assume a: "\<forall>l\<in>set ls. trimmed_line l"
  then have "strings_Join ls \<noteq> []"
    using False strings_Join_eq_Nil [of ls] by (auto simp: trimmed_line_def)
  moreover have "strings_Split (strings_Join ls) = ls"
    using a False by (intro strings_Split_Join) (auto simp: trimmed_line_def)
  ultimately show ?thesis by (simp add: file_lines_def)
qed

lemma removeEmptyLines_Join:
  assumes "\<forall>l\<in>set ls. trimmed_line l"
  shows "removeEmptyLines (strings_Join ls) = strings_Join ls"
proof (cases "ls = []")
  case True
  then show ?thesis
    by (simp add: removeEmptyLines_def strings_Split_Nil TrimSpace_Nil)
next
  case False
  have s: "strings_Split (strings_Join ls) = ls"
    using assms False by (intro strings_Split_Join) (auto simp: trimmed_line_def)
  have "filter (\<lambda>t. t \<noteq> []) ls = ls"
    using assms by (auto simp: trimmed_line_def filter_id_conv)
  then show ?thesis
    by (simp add: removeEmptyLines_def s removeEmptyLines_loop_filter map_TrimSpace_trimmed assms)
qed

lemma removePunctuationOnlyLines_Join:
  assumes "\<forall>l\<in>set ls. trimmed_line l" and "\<forall>l\<in>set ls. \<not> MatchString punctuationOnlyRegex l"
  shows "removePunctuationOnlyLines (strings_Join ls) = strings_Join ls"
proof (cases "ls = []")
  case True
  then show ?thesis
    by (simp add: removePunctuationOnlyLines_def strings_Split_Nil TrimSpace_Nil)
next
  case False
  have s: "strings_Split (strings_Join ls) = ls"
    using assms False by (intro strings_Split_Join) (auto simp: trimmed_line_def)
  have "filter (\<lambda>t. t \<noteq> [] \<and> \<not> MatchString punctuationOnlyRegex t) ls = ls"
    using assms by (auto simp: trimmed_line_def filter_id_conv)
  then show ?thesis
    by (simp add: removePunctuationOnlyLines_def s removePunctuationOnlyLines_loop_filter
        map_TrimSpace_trimmed assms)
qed

lemma removePunctuationOnlyLines_kept:
  "removePunctuationOnlyLines content = strings_Join (kept_lines content)"
  by (simp add: removePunctuationOnlyLines_def removePunctuationOnlyLines_loop_filter kept_lines_def)

lemma kept_lines_trimmed: "l \<in> set (kept_lines content) \<Longrightarrow> trimmed_line l"
  by (auto simp: kept_lines_def trimmed_line_TrimSpace)

lemma kept_lines_not_punct:
  "l \<in> set (kept_lines content) \<Longrightarrow> \<not> MatchString punctuationOnlyRegex l"
  by (auto simp: kept_lines_def)

lemma cleaner_kept:
  "removeEmptyLines (removePunctuationOnlyLines content) = strings_Join (kept_lines content)"
  by (simp add: removePunctuationOnlyLines_kept removeEmptyLines_Join kept_lines_trimmed)

text \<open>
  Claim C5: the cleaner, that is \<^verbatim>\<open>removePunctuationOnlyLines\<close> followed by
  \<^verbatim>\<open>removeEmptyLines\<close>, is idempotent: applied twice to any buffer it yields what it
  yields applied once.
\<close>

theorem cleaner_idempotent:
  "removeEmptyLines (removePunctuationOnlyLines
     (removeEmptyLines (removePunctuationOnlyLines content))) =
   removeEmptyLines (removePunctuationOnlyLines content)"
proof -
  have "removePunctuationOnlyLines (strings_Join (kept_lines content)) =
          strings_Join (kept_lines content)"
    by (rule removePunctuationOnlyLines_Join) (simp_all add: kept_lines_trimmed kept_lines_not_punct)
  then show ?thesis
    by (simp add: cleaner_kept removeEmptyLines_Join kept_lines_trimmed)
qed

subsection \<open>The extractor and the loop over the input\<close>

lemma FindAllString_none:
  "dropWhile (\<lambda>r. \<not> cls r) s = [] \<Longrightarrow> FindAllString cls s = []"
  by (subst FindAllString.simps) (simp del: dropWhile_eq_Nil_conv)

lemma FindAllString_some:
  "dropWhile (\<lambda>r. \<not> cls r) s = r # rs \<Longrightarrow>
     FindAllString cls s = (r # takeWhile cls rs) # FindAllString cls (dropWhile cls rs)"
  by (subst FindAllString.simps) simp

lemma FindAllString_segments:
  "seg \<in> set (FindAllString cls s) \<Longrightarrow> seg \<noteq> [] \<and> list_all cls seg"
proof (induction cls s rule: FindAllString.induct)
  case (1 cls s)
  show ?case
  proof (cases "dropWhile (\<lambda>r. \<not> cls r) s")
    case Nil
    with "1.prems" show ?thesis by (simp add: FindAllString_none)
  next
    case (Cons r rs)
    have "cls r" using hd_dropWhile [of "\<lambda>r. \<not> cls r" s] Cons by simp
    moreover have "list_all cls (takeWhile cls rs)"
      by (simp add: list_all_iff) (meson set_takeWhileD)
    moreover from "1.prems" Cons
    have "seg = r # takeWhile cls rs \<or> seg \<in> set (FindAllString cls (dropWhile cls rs))"
      by (simp add: FindAllString_some)
    ultimately show ?thesis using "1.IH" [OF Cons] by auto
  qed
qed

lemma concat_FindAllString: "concat (FindAllString cls s) = filter cls s"
proof (induction cls s rule: FindAllString.induct)
  case (1 cls s)
  show ?case
  proof (cases "dropWhile (\<lambda>r. \<not> cls r) s")
    case Nil
    then have "filter cls s = []" by (simp add: filter_empty_conv)
    with Nil show ?thesis by (simp add: FindAllString_none)
  next
    case (Cons r rs)
    have r: "cls r" using hd_dropWhile [of "\<lambda>r. \<not> cls r" s] Cons by simp
    have "s = takeWhile (\<lambda>r. \<not> cls r) s @ r # takeWhile cls rs @ dropWhile cls rs"
      using takeWhile_dropWhile_id [of "\<lambda>r. \<not> cls r" s] Cons by simp
    then have "filter cls s =
        filter cls (takeWhile (\<lambda>r. \<not> cls r) s) @ r # filter cls (takeWhile cls rs)
          @ filter cls (dropWhile cls rs)"
      using r by (metis filter.simps(2) filter_append)
    moreover have "filter cls (takeWhile (\<lambda>r. \<not> cls r) s) = []"
      using set_takeWhileD [of _ "\<lambda>r. \<not> cls r" s] by (auto simp: filter_empty_conv)
    moreover have "filter cls (takeWhile cls rs) = takeWhile cls rs"
      by (simp add: filter_id_conv) (meson set_takeWhileD)
    ultimately show ?thesis
      using "1.IH" [OF Cons] Cons by (simp add: FindAllString_some)
  qed
qed

lemma FindAllString_maximal: "maximal_segments cls s (FindAllString cls s)"
proof (induction cls s rule: FindAllString.induct)
  case (1 cls s)
  show ?case
  proof (cases "dropWhile (\<lambda>r. \<not> cls r) s")
    case Nil
    then have "list_all (\<lambda>r. \<not> cls r) s" by (simp add: list_all_iff)
    with Nil show ?thesis by (simp add: FindAllString_none no_segment)
  next
    case (Cons r rs)
    let ?gap = "takeWhile (\<lambda>r. \<not> cls r) s"
    let ?seg = "r # takeWhile cls rs"
    let ?rest = "dropWhile cls rs"
    have r: "cls r" using hd_dropWhile [of "\<lambda>r. \<not> cls r" s] Cons by simp
    have s: "s = ?gap @ ?seg @ ?rest"
      using takeWhile_dropWhile_id [of "\<lambda>r. \<not> cls r" s] Cons by simp
    have gap: "list_all (\<lambda>r. \<not> cls r) ?gap"
      using set_takeWhileD [of _ "\<lambda>r. \<not> cls r" s] by (auto simp: list_all_iff)
    have seg: "list_all cls ?seg"
      using r by (simp add: list_all_iff) (meson set_takeWhileD)
    have rest: "?rest = [] \<or> \<not> cls (hd ?rest)"
      using hd_dropWhile [of cls rs] by blast
    have "maximal_segments cls (?gap @ ?seg @ ?rest) (?seg # FindAllString cls ?rest)"
      using gap _ seg rest "1.IH" [OF Cons] by (rule segment) simp
    then show ?thesis using s Cons by (simp add: FindAllString_some)
  qed
qed

text \<open>
  Claim C7: for every input line and each of the two classes, the extractor returns, in
  order, the non-empty maximal segments of the class, and their concatenation is a
  subsequence of the line.
\<close>

theorem extractor_segments:
  "cls = chineseSentenceRegex \<or> cls = englishSentenceRegex \<Longrightarrow>
   (\<forall>seg \<in> set (FindAllString cls L). seg \<noteq> [] \<and> list_all cls seg) \<and>
   maximal_segments cls L (FindAllString cls L) \<and>
   subseq (concat (FindAllString cls L)) L"
  using FindAllString_segments [of _ cls L]
  by (simp add: FindAllString_maximal concat_FindAllString)

lemma chineseMatches_loop_append:
  "chineseMatches_loop st ms =
     st\<lparr>chineseSentences := chineseSentences st @ ms,
        combinedSentences := combinedSentences st @ ms\<rparr>"
  by (induction ms arbitrary: st) simp_all

lemma englishMatches_loop_append:
  "englishMatches_loop st ms =
     st\<lparr>englishSentences := englishSentences st @ ms,
        combinedSentences := combinedSentences st @ ms\<rparr>"
  by (induction ms arbitrary: st) simp_all

lemma scanner_loop_concat:
  "scanner_loop st lines =
     \<lparr>chineseSentences = chineseSentences st
         @ concat (map (FindAllString chineseSentenceRegex) lines),
      englishSentences = englishSentences st
         @ concat (map (FindAllString englishSentenceRegex) lines),
      combinedSentences = combinedSentences st
         @ concat (map (\<lambda>line. FindAllString chineseSentenceRegex line
                               @ FindAllString englishSentenceRegex line) lines)\<rparr>"
  by (induction lines arbitrary: st)
     (simp_all add: Let_def chineseMatches_loop_append englishMatches_loop_append)

text \<open>
  Claim C4: the combined list is, line by line in the order of the input, the Chinese
  matches of the line from left to right followed by its Latin matches from left to right.
\<close>

theorem combined_order:
  "combinedSentences (scanner_loop
      \<lparr>chineseSentences = [], englishSentences = [], combinedSentences = []\<rparr> lines) =
   concat (map (\<lambda>line. FindAllString chineseSentenceRegex line
                        @ FindAllString englishSentenceRegex line) lines)"
  by (simp add: scanner_loop_concat)

subsection \<open>The runs of main.go\<close>


lemma main_cases [case_names dialog_error no_file open_error read_error chinese_error
    english_error combined_error success]:
  obtains
    p e where "dialog_Load w = (p, Some e)"
      "main w = return_from_main
         [''Select the input file:'', ''Error selecting input file: '' @ error_text e] []"
  | "dialog_Load w = ([], None)"
      "main w = return_from_main [''Select the input file:'', ''No input file selected.''] []"
  | p e where "dialog_Load w = (p, None)" "p \<noteq> []" "os_Open w p = Inl e"
      "main w = return_from_main
         [''Select the input file:'', ''Selected input file: '' @ p,
          ''Error opening input file: '' @ error_text e] []"
  | p data read_err e where "dialog_Load w = (p, None)" "p \<noteq> []"
      "os_Open w p = Inr (data, read_err)" "scanner_Err data read_err = Some e"
      "main w = return_from_main
         [''Select the input file:'', ''Selected input file: '' @ p,
          ''Error reading input file: '' @ error_text e] []"
  | p data e where "dialog_Load w = (p, None)" "p \<noteq> []"
      "os_Open w p = Inr (data, None)" "snd (bufio_Scan data) = None"
      "writeCleanedContent w (category_content (chineseSentences (scanned data)))
         ''pure_chinese_sentences.txt'' = Inl e"
      "main w = return_from_main
         [''Select the input file:'', ''Selected input file: '' @ p,
          ''Error writing to Chinese sentences file: '' @ error_text e] []"
  | p data f1 e where "dialog_Load w = (p, None)" "p \<noteq> []"
      "os_Open w p = Inr (data, None)" "snd (bufio_Scan data) = None"
      "writeCleanedContent w (category_content (chineseSentences (scanned data)))
         ''pure_chinese_sentences.txt'' = Inr f1"
      "writeCleanedContent w (category_content (englishSentences (scanned data)))
         ''pure_english_sentences.txt'' = Inl e"
      "main w = return_from_main
         [''Select the input file:'', ''Selected input file: '' @ p,
          ''Error writing to English sentences file: '' @ error_text e] [f1]"
  | p data f1 f2 e where "dialog_Load w = (p, None)" "p \<noteq> []"
      "os_Open w p = Inr (data, None)" "snd (bufio_Scan data) = None"
      "writeCleanedContent w (category_content (chineseSentences (scanned data)))
         ''pure_chinese_sentences.txt'' = Inr f1"
      "writeCleanedContent w (category_content (englishSentences (scanned data)))
         ''pure_english_sentences.txt'' = Inr f2"
      "writeCleanedContent w (category_content (combinedSentences (scanned data)))
         ''combined_sentences.txt'' = Inl e"
      "main w = return_from_main
         [''Select the input file:'', ''Selected input file: '' @ p,
          ''Error writing to Combined sentences file: '' @ error_text e] [f1, f2]"
  | p data f1 f2 f3 where "dialog_Load w = (p, None)" "p \<noteq> []"
      "os_Open w p = Inr (data, None)" "snd (bufio_Scan data) = None"
      "writeCleanedContent w (category_content (chineseSentences (scanned data)))
         ''pure_chinese_sentences.txt'' = Inr f1"
      "writeCleanedContent w (category_content (englishSentences (scanned data)))
         ''pure_english_sentences.txt'' = Inr f2"
      "writeCleanedContent w (category_content (combinedSentences (scanned data)))
         ''combined_sentences.txt'' = Inr f3"
      "main w = return_from_main
         [''Select the input file:'', ''Selected input file: '' @ p,
          ''All output files written and cleaned successfully!''] [f1, f2, f3]"
proof -
  obtain p err where d: "dialog_Load w = (p, err)" by (cases "dialog_Load w")
  show thesis
  proof (cases err)
    case (Some e)
    with d have "main w = return_from_main
         [''Select the input file:'', ''Error selecting input file: '' @ error_text e] []"
      by (simp add: main_def)
    with d Some show thesis by (intro that(1)) simp_all
  next
    case None
    note d = d [unfolded None]
    show thesis
    proof (cases "p = []")
      case True
      with d have "main w = return_from_main
          [''Select the input file:'', ''No input file selected.''] []"
        by (simp add: main_def)
      with d True show thesis by (intro that(2)) simp_all
    next
      case p: False
      show thesis
      proof (cases "os_Open w p")
        case (Inl e)
        with d p have "main w = return_from_main
           [''Select the input file:'', ''Selected input file: '' @ p,
            ''Error opening input file: '' @ error_text e] []"
          by (simp add: main_def)
        with d p Inl show thesis by (intro that(3)) simp_all
      next
        case (Inr dr)
        obtain data read_err where dr: "dr = (data, read_err)" by (cases dr)
        note o = Inr [unfolded dr]
        obtain lines scan_err where sc: "bufio_Scan data = (lines, scan_err)"
          by (cases "bufio_Scan data")
        show thesis
        proof (cases "scanner_Err data read_err")
          case (Some e)
          with d p o sc have "main w = return_from_main
             [''Select the input file:'', ''Selected input file: '' @ p,
              ''Error reading input file: '' @ error_text e] []"
            by (simp add: main_def scanner_Err_def)
          with d p o Some show thesis by (intro that(4)) simp_all
        next
          case None
          then have se: "scan_err = None" and re: "read_err = None"
            using sc by (simp_all add: scanner_Err_def split: option.splits)
          note o = o [unfolded re]
          have st: "scanner_loop
              \<lparr>chineseSentences = [], englishSentences = [], combinedSentences = []\<rparr> lines
              = scanned data"
            by (simp add: scanned_def sc)
          have s0: "snd (bufio_Scan data) = None" by (simp add: sc se)
          let ?c1 = "writeCleanedContent w (category_content (chineseSentences (scanned data)))
                       ''pure_chinese_sentences.txt''"
          let ?c2 = "writeCleanedContent w (category_content (englishSentences (scanned data)))
                       ''pure_english_sentences.txt''"
          let ?c3 = "writeCleanedContent w (category_content (combinedSentences (scanned data)))
                       ''combined_sentences.txt''"
          show thesis
          proof (cases ?c1)
            case (Inl e)
            with d p o sc se st have "main w = return_from_main
               [''Select the input file:'', ''Selected input file: '' @ p,
                ''Error writing to Chinese sentences file: '' @ error_text e] []"
              by (simp add: main_def category_content_def)
            with d p o s0 Inl show thesis by (intro that(5)) simp_all
          next
            case c1: (Inr f1)
            show thesis
            proof (cases ?c2)
              case (Inl e)
              with d p o sc se st c1 have "main w = return_from_main
                 [''Select the input file:'', ''Selected input file: '' @ p,
                  ''Error writing to English sentences file: '' @ error_text e] [f1]"
                by (simp add: main_def category_content_def)
              with d p o s0 c1 Inl show thesis by (intro that(6)) simp_all
            next
              case c2: (Inr f2)
              show thesis
              proof (cases ?c3)
                case (Inl e)
                with d p o sc se st c1 c2 have "main w = return_from_main
                   [''Select the input file:'', ''Selected input file: '' @ p,
                    ''Error writing to Combined sentences file: '' @ error_text e] [f1, f2]"
                  by (simp add: main_def category_content_def)
                with d p o s0 c1 c2 Inl show thesis by (intro that(7)) simp_all
              next
                case c3: (Inr f3)
                with d p o sc se st c1 c2 have "main w = return_from_main
                   [''Select the input file:'', ''Selected input file: '' @ p,
                    ''All output files written and cleaned successfully!''] [f1, f2, f3]"
                  by (simp add: main_def category_content_def)
                with d p o s0 c1 c2 c3 show thesis by (intro that(8)) simp_all
              qed
            qed
          qed
        qed
      qed
    qed
  qed
qed


lemma writeCleanedContent_Inr_iff:
  "writeCleanedContent w content p = Inr f \<longleftrightarrow>
     os_Create w p = None \<and> writer_WriteString w p = None \<and> writer_Flush w p = None \<and>
     f = (p, removeEmptyLines content)"
  by (auto simp: writeCleanedContent_def Let_def split: option.splits)

lemma written_main:
  assumes "(p, c) \<in> set (written (main w))"
  shows "\<exists>b. c = removeEmptyLines (removePunctuationOnlyLines b)"
  using assms
  by (cases w rule: main_cases)
     (auto simp: return_from_main_def writeCleanedContent_Inr_iff category_content_def)




subsection \<open>The scanner and the sibling program\<close>














subsection \<open>Instances, and the two programs as a whole\<close>

lemma hello_segments:
  "FindAllString englishSentenceRegex hello_line =
     [[0x48, 0x65, 0x6C, 0x6C, 0x6F, 0x2C, 0x20],
      [0x48, 0x6F, 0x77, 0x20, 0x61, 0x72, 0x65, 0x20, 0x79, 0x6F, 0x75, 0x3F]]"
  by code_simp

text \<open>An instance: the Latin class on the line of scenario 4.\<close>

theorem extractor_segments_witness:
  "FindAllString englishSentenceRegex hello_line =
     [[0x48, 0x65, 0x6C, 0x6C, 0x6F, 0x2C, 0x20],
      [0x48, 0x6F, 0x77, 0x20, 0x61, 0x72, 0x65, 0x20, 0x79, 0x6F, 0x75, 0x3F]] \<and>
   maximal_segments englishSentenceRegex hello_line
     [[0x48, 0x65, 0x6C, 0x6C, 0x6F, 0x2C, 0x20],
      [0x48, 0x6F, 0x77, 0x20, 0x61, 0x72, 0x65, 0x20, 0x79, 0x6F, 0x75, 0x3F]] \<and>
   subseq [0x48, 0x65, 0x6C, 0x6C, 0x6F, 0x2C, 0x20,
           0x48, 0x6F, 0x77, 0x20, 0x61, 0x72, 0x65, 0x20, 0x79, 0x6F, 0x75, 0x3F] hello_line"
  using extractor_segments [of englishSentenceRegex hello_line] hello_segments
  by simp

lemma hello_matches:
  "concat (map (\<lambda>line. FindAllString chineseSentenceRegex line
                        @ FindAllString englishSentenceRegex line) [hello_line, [0x31, 0x41]]) =
   [[0x20, 0x4E16, 0x754C, 0xFF01], [0x20], [0x20],
    [0x48, 0x65, 0x6C, 0x6C, 0x6F, 0x2C, 0x20],
    [0x48, 0x6F, 0x77, 0x20, 0x61, 0x72, 0x65, 0x20, 0x79, 0x6F, 0x75, 0x3F],
    [0x31], [0x31, 0x41]]"
  by code_simp

text \<open>An instance: two input lines, the second being \<^verbatim>\<open>1A\<close>.\<close>

theorem combined_order_witness:
  "combinedSentences (scanner_loop
      \<lparr>chineseSentences = [], englishSentences = [], combinedSentences = []\<rparr>
      [hello_line, [0x31, 0x41]]) =
   [[0x20, 0x4E16, 0x754C, 0xFF01], [0x20], [0x20],
    [0x48, 0x65, 0x6C, 0x6C, 0x6F, 0x2C, 0x20],
    [0x48, 0x6F, 0x77, 0x20, 0x61, 0x72, 0x65, 0x20, 0x79, 0x6F, 0x75, 0x3F],
    [0x31], [0x31, 0x41]]"
  using combined_order [of "[hello_line, [0x31, 0x41]]"] hello_matches
  by simp

lemma cleaner_example:
  "removeEmptyLines (removePunctuationOnlyLines
     [0x20, 0x41, 0x2E, 0x20, 0x0A, 0x2E, 0x2E, 0x0A, 0x0A, 0x42, 0x09]) = [0x41, 0x2E, 0x0A, 0x42]"
  by code_simp

text \<open>An instance: a buffer with a padded line, a line of periods and an empty line.\<close>

theorem cleaner_idempotent_witness:
  "removeEmptyLines (removePunctuationOnlyLines [0x41, 0x2E, 0x0A, 0x42]) = [0x41, 0x2E, 0x0A, 0x42]"
  using cleaner_idempotent [of "[0x20, 0x41, 0x2E, 0x20, 0x0A, 0x2E, 0x2E, 0x0A, 0x0A, 0x42, 0x09]"]
  by (simp only: cleaner_example)

lemma hello_run:
  "written (main (input_world ''in.txt'' hello_line)) =
     [(''pure_chinese_sentences.txt'', [0x4E16, 0x754C, 0xFF01]),
      (''pure_english_sentences.txt'',
       [0x48, 0x65, 0x6C, 0x6C, 0x6F, 0x2C, 0x0A,
        0x48, 0x6F, 0x77, 0x20, 0x61, 0x72, 0x65, 0x20, 0x79, 0x6F, 0x75, 0x3F]),
      (''combined_sentences.txt'',
       [0x4E16, 0x754C, 0xFF01, 0x0A, 0x48, 0x65, 0x6C, 0x6C, 0x6F, 0x2C, 0x0A,
        0x48, 0x6F, 0x77, 0x20, 0x61, 0x72, 0x65, 0x20, 0x79, 0x6F, 0x75, 0x3F])]"
  by code_simp

lemma hello_english_lines:
  "file_lines [0x48, 0x65, 0x6C, 0x6C, 0x6F, 0x2C, 0x0A,
        0x48, 0x6F, 0x77, 0x20, 0x61, 0x72, 0x65, 0x20, 0x79, 0x6F, 0x75, 0x3F] =
   [[0x48, 0x65, 0x6C, 0x6C, 0x6F, 0x2C],
    [0x48, 0x6F, 0x77, 0x20, 0x61, 0x72, 0x65, 0x20, 0x79, 0x6F, 0x75, 0x3F]]"
  by code_simp

text \<open>
  Claim C2: every line of each output file of main.go is not empty after trimming, has no
  white space at either end, and does not consist from end to end of code points of the
  punctuation-only class.
\<close>

theorem emitted_lines_clean:
  assumes "(p, c) \<in> set (written (main w))" and "l \<in> set (file_lines c)"
  shows "strings_TrimSpace l \<noteq> [] \<and> \<not> unicode_IsSpace (hd l) \<and> \<not> unicode_IsSpace (last l) \<and>
         \<not> (l \<noteq> [] \<and> list_all punctuationOnlyRegex l)"
proof -
  from assms(1) obtain b where "c = removeEmptyLines (removePunctuationOnlyLines b)"
    using written_main by blast
  then have c: "c = strings_Join (kept_lines b)" by (simp add: cleaner_kept)
  have "file_lines c = kept_lines b"
    unfolding c by (rule file_lines_Join) (simp add: kept_lines_trimmed)
  with assms(2) have l: "l \<in> set (kept_lines b)" by simp
  then have "trimmed_line l" and "\<not> MatchString punctuationOnlyRegex l"
    by (simp_all add: kept_lines_trimmed kept_lines_not_punct)
  then show ?thesis
    using TrimSpace_trimmed_line [of l] by (simp add: trimmed_line_def MatchString_def)
qed

theorem emitted_lines_clean_witness:
  "(''pure_english_sentences.txt'',
    [0x48, 0x65, 0x6C, 0x6C, 0x6F, 0x2C, 0x0A,
     0x48, 0x6F, 0x77, 0x20, 0x61, 0x72, 0x65, 0x20, 0x79, 0x6F, 0x75, 0x3F])
     \<in> set (written (main (input_world ''in.txt'' hello_line))) \<and>
   [0x48, 0x65, 0x6C, 0x6C, 0x6F, 0x2C] \<in> set (file_lines
     [0x48, 0x65, 0x6C, 0x6C, 0x6F, 0x2C, 0x0A,
      0x48, 0x6F, 0x77, 0x20, 0x61, 0x72, 0x65, 0x20, 0x79, 0x6F, 0x75, 0x3F]) \<and>
   strings_TrimSpace [0x48, 0x65, 0x6C, 0x6C, 0x6F, 0x2C] \<noteq> [] \<and>
   \<not> unicode_IsSpace (hd [0x48, 0x65, 0x6C, 0x6C, 0x6F, 0x2C]) \<and>
   \<not> unicode_IsSpace (last [0x48, 0x65, 0x6C, 0x6C, 0x6F, 0x2C]) \<and>
   \<not> list_all punctuationOnlyRegex [0x48, 0x65, 0x6C, 0x6C, 0x6F, 0x2C]"
proof -
  have 1: "(''pure_english_sentences.txt'',
    [0x48, 0x65, 0x6C, 0x6C, 0x6F, 0x2C, 0x0A,
     0x48, 0x6F, 0x77, 0x20, 0x61, 0x72, 0x65, 0x20, 0x79, 0x6F, 0x75, 0x3F])
     \<in> set (written (main (input_world ''in.txt'' hello_line)))"
    by (simp add: hello_run)
  have 2: "[0x48, 0x65, 0x6C, 0x6C, 0x6F, 0x2C] \<in> set (file_lines
     [0x48, 0x65, 0x6C, 0x6C, 0x6F, 0x2C, 0x0A,
      0x48, 0x6F, 0x77, 0x20, 0x61, 0x72, 0x65, 0x20, 0x79, 0x6F, 0x75, 0x3F])"
    by (simp add: hello_english_lines)
  from emitted_lines_clean [OF 1 2] 1 2 show ?thesis by simp
qed

text \<open>
  Claim C8: for the single input line \<^verbatim>\<open>A\<close>U+3002\<^verbatim>\<open>B\<close>U+3002 the Chinese pipeline
  (extract the Chinese-class segments, join, split, punctuation-only filter, empty-line
  filter) yields the empty string, and main.go writes it to the Chinese output file.
\<close>

theorem chinese_output_of_ab_line:
  "removeEmptyLines (removePunctuationOnlyLines (splitAfterPunctuation
     (joinLines (FindAllString chineseSentenceRegex ab_line)))) = [] \<and>
   hd (written (main (input_world ''in.txt'' ab_line))) = (''pure_chinese_sentences.txt'', [])"
  by code_simp














end
